theory Spec2Isabelle
  imports Complex_Main "HOL-Library.Sublist" "HOL-Library.Log_Nat"
begin

text \<open>
  The browser script of the control-flow-graph chat page: it formats and appends chat
  messages, posts to \<open>/generate\<close> and \<open>/clear_session\<close>, shows the returned image and
  metrics, and zooms the image. The repository holds the script twice, \<open>script.js\<close> with
  the zoom controller and a second copy without it; \<open>formatMessage\<close>, \<open>addMessage\<close>,
  \<open>updateMetrics\<close>, \<open>toggleLoading\<close>, \<open>generateGraph\<close> and the repair button's listener
  read the same in both, \<open>initializeUI\<close> and \<open>clearChat\<close> differ and are modelled once
  for each copy.
\<close>

section \<open>JavaScript strings\<close>

text \<open>
  A JavaScript string is a sequence of UTF-16 code units. The script uses characters
  outside ASCII (the bullet U+2022 and two arrows in the send button label), and
  \<open>trim\<close> removes Unicode white space, so a string is modelled as the list of its code
  units. \<open>js\<close> turns an ASCII literal into such a list.
\<close>

type_synonym jsstring = "nat list"

definition js :: "string \<Rightarrow> jsstring" where
  "js s = map of_char s"

definition bullet :: nat where
  "bullet = 8226"

definition newline :: nat where
  "newline = 10"

text \<open>
  ECMAScript \<open>String.prototype.trim\<close> strips WhiteSpace and LineTerminator code points:
  TAB, LF, VT, FF, CR, SP, NBSP, U+1680, U+2000 to U+200A, U+2028, U+2029, U+202F, U+205F,
  U+3000 and U+FEFF.
\<close>

definition is_whitespace :: "nat \<Rightarrow> bool" where
  "is_whitespace c = (c \<in> {9, 10, 11, 12, 13, 32, 160, 5760, 8232, 8233, 8239, 8287, 12288, 65279}
     \<or> (8192 \<le> c \<and> c \<le> 8202))"

definition trim :: "jsstring \<Rightarrow> jsstring" where
  "trim s = rev (dropWhile is_whitespace (rev (dropWhile is_whitespace s)))"

definition startsWith :: "jsstring \<Rightarrow> jsstring \<Rightarrow> bool" where
  "startsWith s p = prefix p s"

text \<open>\<open>s.includes(p)\<close>: \<open>p\<close> occurs in \<open>s\<close> as a contiguous run.\<close>

fun includes_js :: "jsstring \<Rightarrow> jsstring \<Rightarrow> bool" where
  "includes_js [] p = (p = [])"
| "includes_js (c # cs) p = (prefix p (c # cs) \<or> includes_js cs p)"

text \<open>
  \<open>s.split(sep)\<close> for a separator of one code unit. The result is never empty:
  the empty string splits into one empty piece.
\<close>

fun split :: "nat \<Rightarrow> jsstring \<Rightarrow> jsstring list" where
  "split sep [] = [[]]"
| "split sep (c # cs) =
     (if c = sep then [] # split sep cs
      else (case split sep cs of
              [] \<Rightarrow> [[c]]
            | piece # pieces \<Rightarrow> (c # piece) # pieces))"

text \<open>\<open>pieces.join(sep)\<close> for a separator of one code unit.\<close>

fun join :: "nat \<Rightarrow> jsstring list \<Rightarrow> jsstring" where
  "join sep [] = []"
| "join sep [piece] = piece"
| "join sep (piece # pieces) = piece @ sep # join sep pieces"

text \<open>Decimal text of an integer, as the string conversion of an integral Number prints it.\<close>

fun digits :: "nat \<Rightarrow> jsstring" where
  "digits n = (if n < 10 then [48 + n] else digits (n div 10) @ [48 + n mod 10])"

declare digits.simps [simp del]

definition String_of_int :: "int \<Rightarrow> jsstring" where
  "String_of_int i = (if i < 0 then 45 # digits (nat (- i)) else digits (nat i))"


section \<open>JavaScript numbers\<close>

text \<open>
  A Number is an IEEE 754 binary64 value. A finite one is a rational, and the result of
  \<open>+\<close>, \<open>-\<close> and \<open>*\<close> is the exact result rounded to the nearest representable value,
  ties to the even significand. \<open>round_double\<close> is that rounding: the exponent
  \<open>expo x\<close> is the \<open>e\<close> with \<open>2^e \<le> x < 2^(e+1)\<close>, values are spaced \<open>2^(e-52)\<close>
  apart (53 significant bits), and below \<open>2^-1022\<close> the spacing stays \<open>2^-1074\<close>.
  Infinities and NaN are outside the model: the zoom controller only ever adds or
  subtracts \<open>0.1\<close> on values between \<open>0.5\<close> and \<open>3\<close> and multiplies them by \<open>100\<close>.
\<close>

definition round_even :: "rat \<Rightarrow> int" where
  "round_even y =
     (let f = \<lfloor>y\<rfloor>; d = y - of_int f
      in if d < 1 / 2 then f else if 1 / 2 < d then f + 1 else if even f then f else f + 1)"

definition expo :: "rat \<Rightarrow> int" where
  "expo x = (if 1 \<le> x then bitlen \<lfloor>x\<rfloor> - 1 else - bitlen (\<lceil>1 / x\<rceil> - 1))"

definition round_double :: "rat \<Rightarrow> rat" where
  "round_double x =
     (if x = 0 then 0
      else let q = 2 powi (max (expo \<bar>x\<bar>) (- 1022) - 52)
           in sgn x * of_int (round_even (\<bar>x\<bar> / q)) * q)"

definition js_add :: "rat \<Rightarrow> rat \<Rightarrow> rat" where
  "js_add a b = round_double (a + b)"

definition js_sub :: "rat \<Rightarrow> rat \<Rightarrow> rat" where
  "js_sub a b = round_double (a - b)"

definition js_mul :: "rat \<Rightarrow> rat \<Rightarrow> rat" where
  "js_mul a b = round_double (a * b)"

text \<open>\<open>Math.round\<close>: the nearest integer, a tie going up.\<close>

definition Math_round :: "rat \<Rightarrow> int" where
  "Math_round x = \<lfloor>x + 1 / 2\<rfloor>"

definition Math_min :: "rat \<Rightarrow> rat \<Rightarrow> rat" where
  "Math_min a b = min a b"

definition Math_max :: "rat \<Rightarrow> rat \<Rightarrow> rat" where
  "Math_max a b = max a b"

text \<open>
  JavaScript's \<open>a || b || c\<close> on Numbers, the last of which may be \<open>undefined\<close>
  (\<open>None\<close>): the first operand that is not zero, otherwise the last operand.
\<close>

definition js_or3 :: "rat \<Rightarrow> rat \<Rightarrow> rat option \<Rightarrow> rat option" where
  "js_or3 a b c = (if a \<noteq> 0 then Some a else if b \<noteq> 0 then Some b else c)"

text \<open>A comparison with \<open>undefined\<close> is false.\<close>

definition js_lt0 :: "rat option \<Rightarrow> bool" where
  "js_lt0 d = (case d of None \<Rightarrow> False | Some v \<Rightarrow> v < 0)"

definition js_gt0 :: "rat option \<Rightarrow> bool" where
  "js_gt0 d = (case d of None \<Rightarrow> False | Some v \<Rightarrow> 0 < v)"


section \<open>The page state\<close>

text \<open>
  The script keeps its state in the two closure variables \<open>isRepairMode\<close> and
  \<open>currentZoom\<close> and in the DOM. The record below holds those variables and every DOM
  property the script reads or writes, named after the element and the property.
  A child of \<open>chatMessages\<close> is a \<open>div\<close> whose content was assigned either through
  \<open>innerHTML\<close> (parsed as markup) or through \<open>textContent\<close> (inserted as text).
  \<open>chatMessages.scrollTop\<close> and \<open>preventDefault\<close> concern layout and the browser's own
  defaults and are not part of the state.
\<close>

datatype node_body = InnerHTML jsstring | TextContent jsstring

record message_div =
  className :: jsstring
  body :: node_body

text \<open>
  The first \<open>img\<close> element below \<open>graphContent\<close>, if there is one, with the scale
  factor of its \<open>style.transform\<close> (\<open>None\<close> while no transform has been assigned;
  \<open>Some z\<close> stands for the text \<open>scale(z)\<close>).
\<close>

record img_element =
  transform_scale :: "rat option"

record page =
  chatMessages :: "message_div list"
  userInput_value :: jsstring
  userInput_placeholder :: jsstring
  userInput_focused :: bool
  sendBtn_disabled :: bool
  sendBtn_innerHTML :: jsstring
  repairBtn_active :: bool
  loadingOverlay_hidden :: bool
  graphContent_innerHTML :: jsstring
  graphContent_img :: "img_element option"
  zoomLevel_textContent :: jsstring
  zoomIn_disabled :: bool
  zoomOut_disabled :: bool
  nodesMetric :: jsstring
  edgesMetric :: jsstring
  cyclomaticMetric :: jsstring
  isRepairMode :: bool
  currentZoom :: rat

text \<open>
  Assigning markup to \<open>innerHTML\<close> runs the browser's HTML fragment parser, and
  \<open>querySelector('img')\<close> asks whether the parsed tree holds an \<open>img\<close> element. The
  parser is platform code, so it is a parameter of the model: \<open>parser markup\<close> says
  whether the markup yields an \<open>img\<close> element. The empty string has no child nodes
  under every parser.
\<close>

type_synonym html_parser = "jsstring \<Rightarrow> bool"

definition graphContent_set_innerHTML :: "html_parser \<Rightarrow> jsstring \<Rightarrow> page \<Rightarrow> page" where
  "graphContent_set_innerHTML parser content s =
     s\<lparr>graphContent_innerHTML := content,
       graphContent_img :=
         (if content \<noteq> [] \<and> parser content then Some \<lparr>transform_scale = None\<rparr> else None)\<rparr>"

text \<open>
  Events carry the modifier keys; a key event adds \<open>key\<close>, a wheel event the three
  delta properties the listener consults (\<open>wheelDelta\<close> is absent in some browsers).
\<close>

record dom_event =
  ctrlKey :: bool
  metaKey :: bool

record key_event = dom_event +
  key :: jsstring

record wheel_event = dom_event +
  deltaY :: rat
  detail :: rat
  wheelDelta :: "rat option"

text \<open>
  Modelled from the spec: the JSON payloads of the two endpoints, which the server
  (not part of the script) produces:
  \<open>{error?: string, chat_history?: [{type, content}], cfg_image?: string,
  metrics?: {nodes, edges, cyclomatic}}\<close> for \<open>/generate\<close> and \<open>{status}\<close> for
  \<open>/clear_session\<close>. A fetch either rejects (transport failure, or a body that is not
  JSON) with an error message or resolves with the payload.
\<close>

record chat_entry =
  entry_type :: jsstring
  entry_content :: jsstring

record metrics =
  nodes :: int
  edges :: int
  cyclomatic :: int

record generate_payload =
  error :: "jsstring option"
  chat_history :: "chat_entry list option"
  cfg_image :: "jsstring option"
  metrics :: "metrics option"

record clear_payload =
  status :: "jsstring option"

datatype 'a fetch_result = Rejected jsstring | Resolved 'a


section \<open>Message formatting and the transcript\<close>

definition formatMessage :: "jsstring \<Rightarrow> jsstring" where
  \<open>formatMessage content =
     concat (map (\<lambda>line.
       let line = trim line
       in if startsWith line [bullet] then js ''<div class="bullet-point">'' @ line @ js ''</div>''
          else if startsWith line (js ''-'') then js ''<div class="sub-bullet">'' @ line @ js ''</div>''
          else js ''<div>'' @ line @ js ''</div>'')
       (split newline content))\<close>

definition addMessage :: "jsstring \<Rightarrow> jsstring \<Rightarrow> page \<Rightarrow> page" where
  "addMessage content type s =
     s\<lparr>chatMessages := chatMessages s @
        [\<lparr>className = js ''message '' @ type,
          body = (if type = js ''assistant'' then InnerHTML (formatMessage content)
                  else TextContent content)\<rparr>]\<rparr>"

definition updateMetrics :: "metrics option \<Rightarrow> page \<Rightarrow> page" where
  "updateMetrics data_metrics s =
     (case data_metrics of
        Some m \<Rightarrow> s\<lparr>nodesMetric := String_of_int (nodes m),
                     edgesMetric := String_of_int (edges m),
                     cyclomaticMetric := String_of_int (cyclomatic m)\<rparr>
      | None \<Rightarrow> s\<lparr>nodesMetric := js ''-'', edgesMetric := js ''-'', cyclomaticMetric := js ''-''\<rparr>)"

definition toggleLoading :: "bool \<Rightarrow> page \<Rightarrow> page" where
  "toggleLoading show s = s\<lparr>loadingOverlay_hidden := \<not> show\<rparr>"

definition initializeUI :: "page \<Rightarrow> page" where
  "initializeUI s =
     updateMetrics None (s\<lparr>userInput_focused := True, repairBtn_active := False, isRepairMode := False\<rparr>)"


section \<open>The zoom controller\<close>

definition zoomStep :: rat where
  "zoomStep = round_double (1 / 10)"

definition minZoom :: rat where
  "minZoom = 1 / 2"

definition maxZoom :: rat where
  "maxZoom = 3"

definition updateZoom :: "page \<Rightarrow> page" where
  "updateZoom s =
     (case graphContent_img s of
        None \<Rightarrow> s
      | Some img \<Rightarrow>
          s\<lparr>graphContent_img := Some (img\<lparr>transform_scale := Some (currentZoom s)\<rparr>),
            zoomLevel_textContent := String_of_int (Math_round (js_mul (currentZoom s) 100)) @ js ''%'',
            zoomIn_disabled := (maxZoom \<le> currentZoom s),
            zoomOut_disabled := (currentZoom s \<le> minZoom)\<rparr>)"

definition zoomIn_onclick :: "page \<Rightarrow> page" where
  "zoomIn_onclick s =
     (if currentZoom s < maxZoom
      then updateZoom (s\<lparr>currentZoom := Math_min (js_add (currentZoom s) zoomStep) maxZoom\<rparr>)
      else s)"

definition zoomOut_onclick :: "page \<Rightarrow> page" where
  "zoomOut_onclick s =
     (if minZoom < currentZoom s
      then updateZoom (s\<lparr>currentZoom := Math_max (js_sub (currentZoom s) zoomStep) minZoom\<rparr>)
      else s)"

text \<open>
  A click on a button, by the mouse or through \<open>click()\<close>, reaches the listener only
  while the button is not disabled.
\<close>

definition zoomIn_click :: "page \<Rightarrow> page" where
  "zoomIn_click s = (if zoomIn_disabled s then s else zoomIn_onclick s)"

definition zoomOut_click :: "page \<Rightarrow> page" where
  "zoomOut_click s = (if zoomOut_disabled s then s else zoomOut_onclick s)"

text \<open>The setter that replaces \<open>graphImage.innerHTML\<close>.\<close>

definition graphImage_set_innerHTML :: "html_parser \<Rightarrow> jsstring \<Rightarrow> page \<Rightarrow> page" where
  "graphImage_set_innerHTML parser content s =
     (if includes_js content (js ''<img'')
      then updateZoom ((graphContent_set_innerHTML parser content s)\<lparr>currentZoom := 1\<rparr>)
      else graphContent_set_innerHTML parser content s)"

definition document_keydown :: "key_event \<Rightarrow> page \<Rightarrow> page" where
  "document_keydown e s =
     (if ctrlKey e \<or> metaKey e
      then if key e = js ''='' \<or> key e = js ''+'' then zoomIn_click s
           else if key e = js ''-'' then zoomOut_click s
           else s
      else s)"

definition graphImage_wheel :: "wheel_event \<Rightarrow> page \<Rightarrow> page" where
  "graphImage_wheel e s =
     (if ctrlKey e \<or> metaKey e
      then let delta = js_or3 (deltaY e) (detail e) (wheelDelta e)
           in updateZoom
                (if js_lt0 delta \<and> currentZoom s < maxZoom
                 then s\<lparr>currentZoom := Math_min (js_add (currentZoom s) zoomStep) maxZoom\<rparr>
                 else if js_gt0 delta \<and> minZoom < currentZoom s
                 then s\<lparr>currentZoom := Math_max (js_sub (currentZoom s) zoomStep) minZoom\<rparr>
                 else s)
      else s)"

text \<open>
  One trigger of a zoom step: a click on either button, a key pressed anywhere in the
  document, or a wheel event over the viewer.
\<close>

datatype zoom_trigger = ZoomInButton | ZoomOutButton | Keydown key_event | Wheel wheel_event

fun trigger :: "zoom_trigger \<Rightarrow> page \<Rightarrow> page" where
  "trigger ZoomInButton s = zoomIn_click s"
| "trigger ZoomOutButton s = zoomOut_click s"
| "trigger (Keydown e) s = document_keydown e s"
| "trigger (Wheel e) s = graphImage_wheel e s"

fun zoom_run :: "zoom_trigger list \<Rightarrow> page \<Rightarrow> page" where
  "zoom_run [] s = s"
| "zoom_run (t # ts) s = zoom_run ts (trigger t s)"

definition buttons_in_sync :: "page \<Rightarrow> bool" where
  "buttons_in_sync s =
     ((zoomIn_disabled s \<longleftrightarrow> currentZoom s = maxZoom) \<and> (zoomOut_disabled s \<longleftrightarrow> currentZoom s = minZoom))"


section \<open>Repair mode, generate and clear\<close>

definition repair_placeholder :: jsstring where
  "repair_placeholder = js ''Describe how you'' @ [39] @ js ''d like to improve the current graph...''"

definition default_placeholder :: jsstring where
  "default_placeholder = js ''Describe the process or flow you want to visualize...''"

definition repairBtn_onclick :: "page \<Rightarrow> page" where
  "repairBtn_onclick s =
     (let s = s\<lparr>isRepairMode := \<not> isRepairMode s\<rparr>;
          s = s\<lparr>repairBtn_active := \<not> repairBtn_active s\<rparr>
      in s\<lparr>userInput_placeholder :=
             (if isRepairMode s then repair_placeholder else default_placeholder)\<rparr>)"

definition WELCOME_MESSAGE :: jsstring where
  "WELCOME_MESSAGE = join newline
     [bullet # js '' Welcome to the Control Flow Graph Generator!'',
      [],
      bullet # js '' Key Features:'',
      js ''  - Create detailed flow diagrams'',
      js ''  - Get instant graph metrics'',
      js ''  - Optimize process layouts'',
      js ''  - Analyze flow complexity'',
      [],
      bullet # js '' How to Use:'',
      js ''  - Type your process description'',
      js ''  - Click Generate to create graph'',
      js ''  - Use Refine for improvements'',
      [],
      bullet # js '' Try describing a simple process to start!'']"

definition generating_label :: jsstring where
  \<open>generating_label = js ''<span class="btn-icon">'' @ [8635] @ js ''</span> Generating...''\<close>

definition generate_label :: jsstring where
  \<open>generate_label = js ''<span class="btn-icon">'' @ [10148] @ js ''</span> Generate''\<close>

text \<open>
  \<open>generateGraph\<close> awaits the response of \<open>/generate\<close>; the model takes the outcome of
  the fetch as an argument and runs the function to its end. The body of \<open>try\<close>
  after the error check, which cannot throw:
\<close>

definition generateGraph_render :: "html_parser \<Rightarrow> jsstring \<Rightarrow> generate_payload \<Rightarrow> page \<Rightarrow> page" where
  \<open>generateGraph_render parser input data s =
     (let s = addMessage input (js ''user'') s;
          s = (case chat_history data of
                 None \<Rightarrow> s
               | Some history \<Rightarrow>
                   if history \<noteq> [] \<and> entry_type (last history) = js ''assistant''
                   then addMessage (entry_content (last history)) (js ''assistant'') s
                   else s);
          s = (case cfg_image data of
                 None \<Rightarrow> s
               | Some png \<Rightarrow>
                   if png \<noteq> []
                   then graphImage_set_innerHTML parser
                          (js ''<img src="data:image/png;base64,'' @ png @ js ''" alt="Control Flow Graph">'') s
                   else s);
          s = (case metrics data of None \<Rightarrow> s | Some m \<Rightarrow> updateMetrics (Some m) s)
      in s\<lparr>userInput_value := [], userInput_focused := True\<rparr>)\<close>

text \<open>
  The body of \<open>try\<close>: \<open>Inl\<close> is a thrown \<open>Error\<close> with its message and the page as it
  is at the throw, \<open>Inr\<close> the page after normal completion.
\<close>

definition generateGraph_try ::
  "html_parser \<Rightarrow> jsstring \<Rightarrow> generate_payload fetch_result \<Rightarrow> page \<Rightarrow> (jsstring \<times> page) + page" where
  "generateGraph_try parser input response s =
     (let s = toggleLoading True s;
          s = s\<lparr>sendBtn_disabled := True, sendBtn_innerHTML := generating_label\<rparr>
      in case response of
           Rejected message \<Rightarrow> Inl (message, s)
         | Resolved data \<Rightarrow>
             (case error data of
                None \<Rightarrow> Inr (generateGraph_render parser input data s)
              | Some e \<Rightarrow>
                  if e \<noteq> [] then Inl (e, s)
                  else Inr (generateGraph_render parser input data s)))"

definition generateGraph :: "html_parser \<Rightarrow> generate_payload fetch_result \<Rightarrow> page \<Rightarrow> page" where
  "generateGraph parser response s =
     (let input = trim (userInput_value s)
      in if input = [] then s
         else let s = (case generateGraph_try parser input response s of
                         Inl (message, s) \<Rightarrow>
                           addMessage (bullet # js '' Error: '' @ message) (js ''assistant'') s
                       | Inr s \<Rightarrow> s);
                  s = toggleLoading False s
              in s\<lparr>sendBtn_disabled := False, sendBtn_innerHTML := generate_label\<rparr>)"

definition clearChat :: "html_parser \<Rightarrow> clear_payload fetch_result \<Rightarrow> page \<Rightarrow> page" where
  "clearChat parser response s =
     (case response of
        Rejected message \<Rightarrow> s
      | Resolved data \<Rightarrow>
          if status data = Some (js ''success'')
          then let s = s\<lparr>chatMessages := []\<rparr>;
                   s = graphImage_set_innerHTML parser [] s;
                   s = s\<lparr>userInput_value := []\<rparr>;
                   s = updateMetrics None s;
                   s = addMessage WELCOME_MESSAGE (js ''assistant'') s
               in initializeUI s
          else s)"

text \<open>
  The second copy of the script has no zoom controller, so \<open>graphImage.innerHTML\<close> is
  the plain DOM property there (the same two fields of the page stand for the viewer's
  content), and its \<open>initializeUI\<close> adds the welcome message to an empty transcript.
\<close>

definition initializeUI_part000 :: "page \<Rightarrow> page" where
  "initializeUI_part000 s =
     (let s = updateMetrics None
                (s\<lparr>userInput_focused := True, repairBtn_active := False, isRepairMode := False\<rparr>)
      in if chatMessages s = [] then addMessage WELCOME_MESSAGE (js ''assistant'') s else s)"

definition clearChat_part000 :: "html_parser \<Rightarrow> clear_payload fetch_result \<Rightarrow> page \<Rightarrow> page" where
  "clearChat_part000 parser response s =
     (case response of
        Rejected message \<Rightarrow> s
      | Resolved data \<Rightarrow>
          if status data = Some (js ''success'')
          then let s = s\<lparr>chatMessages := []\<rparr>;
                   s = graphContent_set_innerHTML parser [] s;
                   s = s\<lparr>userInput_value := []\<rparr>;
                   s = updateMetrics None s;
                   s = addMessage WELCOME_MESSAGE (js ''assistant'') s
               in initializeUI_part000 s
          else s)"

text \<open>
  The \<open>DOMContentLoaded\<close> listener: it creates the empty \<open>graphContent\<close> and the zoom
  controls, initialises the two variables and calls \<open>initializeUI\<close>. Everything else is
  as the HTML document delivered it.
\<close>

definition DOMContentLoaded :: "page \<Rightarrow> page" where
  "DOMContentLoaded document =
     initializeUI
       (document\<lparr>isRepairMode := False,
                 graphContent_innerHTML := [],
                 graphContent_img := None,
                 zoomLevel_textContent := js ''100%'',
                 zoomIn_disabled := False,
                 zoomOut_disabled := False,
                 currentZoom := 1\<rparr>)"

text \<open>
  A concrete document and a concrete parser, to run the model on: an empty transcript
  and input field, and a parser that finds an \<open>img\<close> element in markup that opens with
  an \<open>img\<close> start tag.
\<close>

definition blank_document :: page where
  "blank_document =
     \<lparr>chatMessages = [], userInput_value = [], userInput_placeholder = default_placeholder,
      userInput_focused = False, sendBtn_disabled = False, sendBtn_innerHTML = generate_label,
      repairBtn_active = False, loadingOverlay_hidden = True, graphContent_innerHTML = [],
      graphContent_img = None, zoomLevel_textContent = [], zoomIn_disabled = False,
      zoomOut_disabled = False, nodesMetric = [], edgesMetric = [], cyclomaticMetric = [],
      isRepairMode = False, currentZoom = 0\<rparr>"

definition start_tag_parser :: html_parser where
  "start_tag_parser markup = prefix (js ''<img '') markup"

definition loaded_page :: page where
  "loaded_page = DOMContentLoaded blank_document"

definition rendered_page :: page where
  \<open>rendered_page =
     graphImage_set_innerHTML start_tag_parser
       (js ''<img src="data:image/png;base64,AAAA" alt="Control Flow Graph">'') loaded_page\<close>

text \<open>
  Sample events: one notch of the wheel turned up and one turned down with ctrl held, as
  a browser delivers them (\<open>deltaY\<close> is negative for up and positive for down, the legacy
  \<open>wheelDelta\<close> has the opposite sign), the answer \<open>{status: "success"}\<close> of
  \<open>/clear_session\<close>, and a short run of zoom triggers.
\<close>

definition wheel_up_notch :: wheel_event where
  "wheel_up_notch = \<lparr>ctrlKey = True, metaKey = False, deltaY = - 100, detail = 0, wheelDelta = Some 120\<rparr>"

definition wheel_down_notch :: wheel_event where
  "wheel_down_notch = \<lparr>ctrlKey = True, metaKey = False, deltaY = 100, detail = 0, wheelDelta = Some (- 120)\<rparr>"

definition clear_succeeded :: "clear_payload fetch_result" where
  "clear_succeeded = Resolved \<lparr>status = Some (js ''success'')\<rparr>"

definition sample_triggers :: "zoom_trigger list" where
  "sample_triggers =
     [Wheel wheel_up_notch, ZoomOutButton, Keydown \<lparr>ctrlKey = False, metaKey = True, key = js ''+''\<rparr>]"


section \<open>Auxiliary notions\<close>

text \<open>
  The invariant of the zoom controller: the zoom level lies between the two bounds, and
  while an image is shown each button is disabled exactly at its bound.
\<close>

definition zoom_invariant :: "page \<Rightarrow> bool" where
  "zoom_invariant s =
     (1 / 2 \<le> currentZoom s \<and> currentZoom s \<le> 3 \<and> (graphContent_img s \<noteq> None \<longrightarrow> buttons_in_sync s))"

text \<open>
  The per-line rule of the message formatter in the words of the specification, read on
  the line with its surrounding white space removed: a first character \<open>U+2022\<close> gives
  a bullet element, a first character \<open>-\<close> a sub-bullet element, anything else (the
  empty line too) a plain element; the element encloses the trimmed line.
\<close>

definition spec_div_element :: "jsstring \<Rightarrow> jsstring \<Rightarrow> jsstring" where
  "spec_div_element attributes inner = js ''<div'' @ attributes @ js ''>'' @ inner @ js ''</div>''"

definition spec_line_element :: "jsstring \<Rightarrow> jsstring" where
  \<open>spec_line_element line =
     (case trim line of
        [] \<Rightarrow> spec_div_element [] []
      | c # rest \<Rightarrow>
          if c = bullet then spec_div_element (js '' class="bullet-point"'') (c # rest)
          else if c = 45 then spec_div_element (js '' class="sub-bullet"'') (c # rest)
          else spec_div_element [] (c # rest))\<close>


section \<open>Rounding to binary64\<close>

lemma round_even_ge_floor: "\<lfloor>y\<rfloor> \<le> round_even y"
  by (simp add: round_even_def Let_def)

lemma round_even_le_ceiling: "round_even y \<le> \<lceil>y\<rceil>"
proof (cases "y = of_int \<lfloor>y\<rfloor>")
  case True
  then have "y - of_int \<lfloor>y\<rfloor> = 0" by simp
  then have "round_even y = \<lfloor>y\<rfloor>" by (simp add: round_even_def Let_def)
  then show ?thesis by (simp add: floor_le_ceiling)
next
  case False
  then have "\<lceil>y\<rceil> = \<lfloor>y\<rfloor> + 1"
    by (metis ceiling_altdef)
  moreover have "round_even y \<le> \<lfloor>y\<rfloor> + 1" by (simp add: round_even_def Let_def)
  ultimately show ?thesis by simp
qed

lemma round_even_ge: "of_int n \<le> y \<Longrightarrow> n \<le> round_even y"
  using round_even_ge_floor [of y] le_floor_iff [of n y] by linarith

lemma round_even_le: "y \<le> of_int n \<Longrightarrow> round_even y \<le> n"
  using round_even_le_ceiling [of y] ceiling_le_iff [of y n] by linarith

lemma round_even_error: "\<bar>of_int (round_even y) - y\<bar> \<le> 1 / 2"
proof -
  have "of_int \<lfloor>y\<rfloor> \<le> y" "y < of_int \<lfloor>y\<rfloor> + 1" by linarith+
  then show ?thesis
    by (auto simp: round_even_def Let_def abs_le_iff)
qed

lemma powi_nat: "0 \<le> e \<Longrightarrow> (2::rat) powi e = 2 ^ nat e"
  by (simp add: power_int_def)

lemma expo_bounds:
  assumes "0 < x"
  shows "2 powi (expo x) \<le> x" and "x < 2 powi (expo x + 1)"
proof -
  have "2 powi (expo x) \<le> x \<and> x < 2 powi (expo x + 1)"
  proof (cases "1 \<le> x")
    case True
    define n where "n = \<lfloor>x\<rfloor>"
    have n: "0 < n" using True by (simp add: n_def)
    have b: "1 \<le> bitlen n" using n bitlen_eq_zero_iff [of n] bitlen_nonneg [of n] by linarith
    have e: "expo x = bitlen n - 1" using True by (simp add: expo_def n_def)
    from bitlen_bounds [OF n] have lo: "2 ^ nat (bitlen n - 1) \<le> n" and hi: "n < 2 ^ nat (bitlen n)"
      by simp_all
    have "(2::rat) ^ nat (bitlen n - 1) = of_int (2 ^ nat (bitlen n - 1))" by simp
    also have "\<dots> \<le> of_int n" using lo by (simp only: of_int_le_iff)
    also have "\<dots> \<le> x" by (simp add: n_def)
    finally have 1: "2 powi (expo x) \<le> x" using b by (simp add: e powi_nat)
    have "n + 1 \<le> 2 ^ nat (bitlen n)" using hi by simp
    then have "(of_int (n + 1) :: rat) \<le> of_int (2 ^ nat (bitlen n))" by (simp only: of_int_le_iff)
    moreover have "x < of_int (n + 1)" unfolding n_def using floor_correct [of x] by simp
    ultimately have "x < 2 ^ nat (bitlen n)" by simp
    then have 2: "x < 2 powi (expo x + 1)" using b by (simp add: e powi_nat)
    from 1 2 show ?thesis ..
  next
    case False
    then have x1: "x < 1" by simp
    define m where "m = \<lceil>1 / x\<rceil>"
    have "1 < 1 / x" using assms x1 by simp
    then have m2: "2 \<le> m" unfolding m_def by (simp add: le_ceiling_iff)
    then have n: "0 < m - 1" by simp
    define k where "k = bitlen (m - 1)"
    have b: "1 \<le> k" using n bitlen_eq_zero_iff [of "m - 1"] bitlen_nonneg [of "m - 1"] unfolding k_def by linarith
    have e: "expo x = - k" using False by (simp add: expo_def m_def k_def)
    from bitlen_bounds [OF n] have lo: "2 ^ nat (k - 1) \<le> m - 1" and hi: "m - 1 < 2 ^ nat k"
      by (simp_all add: k_def)
    have "1 / x \<le> of_int m" unfolding m_def by simp
    also have "m \<le> 2 ^ nat k" using hi by simp
    then have "(of_int m :: rat) \<le> of_int (2 ^ nat k)" by (simp only: of_int_le_iff)
    finally have "1 / x \<le> 2 ^ nat k" by simp
    then have "1 \<le> 2 ^ nat k * x" using assms by (simp add: field_simps)
    then have "1 / 2 ^ nat k \<le> x" by (simp add: field_simps)
    moreover have "(2::rat) powi (- k) = 1 / 2 ^ nat k"
      using b by (simp add: power_int_minus_divide powi_nat)
    ultimately have 1: "2 powi (expo x) \<le> x" by (simp add: e)
    have "(of_int (2 ^ nat (k - 1)) :: rat) \<le> of_int (m - 1)" using lo by (simp only: of_int_le_iff)
    moreover have "of_int (m - 1) < 1 / x" unfolding m_def using ceiling_correct [of "1 / x"] by simp
    ultimately have "2 ^ nat (k - 1) < 1 / x" by simp
    then have "2 ^ nat (k - 1) * x < 1" using assms by (simp add: field_simps)
    then have "x < 1 / 2 ^ nat (k - 1)" by (simp add: field_simps)
    moreover have "(2::rat) powi (- k + 1) = 1 / 2 ^ nat (k - 1)"
    proof -
      have "(2::rat) powi (- k + 1) = 2 powi (- (k - 1))" by simp
      also have "\<dots> = 1 / 2 powi (k - 1)" by (rule power_int_minus_divide)
      also have "\<dots> = 1 / 2 ^ nat (k - 1)" using b by (simp add: powi_nat)
      finally show ?thesis .
    qed
    ultimately have 2: "x < 2 powi (expo x + 1)" by (simp add: e)
    from 1 2 show ?thesis ..
  qed
  then show "2 powi (expo x) \<le> x" and "x < 2 powi (expo x + 1)" by simp_all
qed

lemma expo_ge: "2 powi e \<le> x \<Longrightarrow> e \<le> expo x"
proof -
  assume a: "2 powi e \<le> x"
  have "0 < (2::rat) powi e" by simp
  with a have x: "0 < x" by linarith
  show ?thesis
  proof (rule ccontr)
    assume "\<not> e \<le> expo x"
    then have "expo x + 1 \<le> e" by simp
    then have "(2::rat) powi (expo x + 1) \<le> 2 powi e" by (intro power_int_increasing) simp_all
    with expo_bounds(2) [OF x] a show False by linarith
  qed
qed

lemma expo_le: "0 < x \<Longrightarrow> x < 2 powi (e + 1) \<Longrightarrow> expo x \<le> e"
proof -
  assume x: "0 < x" and a: "x < 2 powi (e + 1)"
  show ?thesis
  proof (rule ccontr)
    assume "\<not> expo x \<le> e"
    then have "e + 1 \<le> expo x" by simp
    then have "(2::rat) powi (e + 1) \<le> 2 powi (expo x)" by (intro power_int_increasing) simp_all
    with expo_bounds(1) [OF x] a show False by linarith
  qed
qed

lemma round_double_pos:
  "0 < x \<Longrightarrow> round_double x =
     of_int (round_even (x / 2 powi (max (expo x) (- 1022) - 52))) * 2 powi (max (expo x) (- 1022) - 52)"
  by (simp add: round_double_def Let_def)

lemma round_double_ge_half:
  assumes "1 / 2 \<le> x"
  shows "1 / 2 \<le> round_double x"
proof -
  have x: "0 < x" using assms by linarith
  have "(2::rat) powi (- 1) \<le> x" using assms by (simp add: power_int_minus_divide)
  then have e: "- 1 \<le> expo x" by (rule expo_ge)
  define q :: rat where "q = 2 powi (expo x - 52)"
  have q: "0 < q" by (simp add: q_def)
  have m: "max (expo x) (- 1022) = expo x" using e by simp
  have rd: "round_double x = of_int (round_even (x / q)) * q"
    using x by (simp add: round_double_pos m q_def)
  have "(2::rat) powi (expo x - 52 + 52) = 2 powi (expo x - 52) * 2 powi 52"
    by (rule power_int_add) simp
  then have pq: "(2::rat) powi (expo x) = 2 ^ 52 * q" by (simp add: q_def)
  have "2 ^ 52 * q \<le> x" using expo_bounds(1) [OF x] pq by simp
  then have "of_int (2 ^ 52) \<le> x / q" using q by (simp add: field_simps)
  then have "2 ^ 52 \<le> round_even (x / q)" by (rule round_even_ge)
  then have "(of_int (2 ^ 52) :: rat) \<le> of_int (round_even (x / q))" by (simp only: of_int_le_iff)
  then have "of_int (2 ^ 52) * q \<le> round_double x" using q by (simp add: rd)
  then have "2 powi (expo x) \<le> round_double x" using pq by simp
  moreover have "(2::rat) powi (- 1) \<le> 2 powi (expo x)" using e by (intro power_int_increasing) simp_all
  ultimately show ?thesis by (simp add: power_int_minus_divide)
qed

lemma round_double_nonpos: "x \<le> 0 \<Longrightarrow> round_double x \<le> 0"
proof -
  assume a: "x \<le> 0"
  show ?thesis
  proof (cases "x = 0")
    case True
    then show ?thesis by (simp add: round_double_def)
  next
    case False
    then have x: "x < 0" using a by simp
    define q :: rat where "q = 2 powi (max (expo \<bar>x\<bar>) (- 1022) - 52)"
    have q: "0 < q" by (simp add: q_def)
    have "0 \<le> \<bar>x\<bar> / q" using q by simp
    then have "of_int 0 \<le> \<bar>x\<bar> / q" by simp
    then have "0 \<le> round_even (\<bar>x\<bar> / q)" by (rule round_even_ge)
    then have "0 \<le> (of_int (round_even (\<bar>x\<bar> / q)) :: rat) * q" using q by simp
    moreover have "round_double x = - (of_int (round_even (\<bar>x\<bar> / q)) * q)"
      using x by (simp add: round_double_def Let_def q_def)
    ultimately show ?thesis by linarith
  qed
qed

lemma round_double_le_3:
  assumes "x \<le> 3"
  shows "round_double x \<le> 3"
proof (cases "0 < x")
  case False
  then have "round_double x \<le> 0" by (intro round_double_nonpos) simp
  then show ?thesis by linarith
next
  case True
  have "x < 2 powi (1 + 1)" using assms by simp
  then have e: "expo x \<le> 1" using True by (intro expo_le)
  define d where "d = max (expo x) (- 1022)"
  have d: "d \<le> 1" using e by (simp add: d_def)
  define q :: rat where "q = 2 powi (d - 52)"
  have q: "0 < q" by (simp add: q_def)
  have rd: "round_double x = of_int (round_even (x / q)) * q"
    using True by (simp add: round_double_pos q_def d_def)
  have "(2::rat) powi (52 - d) * 2 powi (d - 52) = 1" by (simp flip: power_int_add)
  moreover have "(2::rat) powi (52 - d) = 2 ^ nat (52 - d)" using d by (simp add: powi_nat)
  ultimately have inv: "2 ^ nat (52 - d) * q = 1" by (simp add: q_def)
  have "x / q = x * 2 ^ nat (52 - d)" using inv q by (simp add: field_simps)
  also have "\<dots> \<le> 3 * 2 ^ nat (52 - d)" using assms by simp
  also have "\<dots> = of_int (3 * 2 ^ nat (52 - d))" by simp
  finally have "round_even (x / q) \<le> 3 * 2 ^ nat (52 - d)" by (rule round_even_le)
  then have "(of_int (round_even (x / q)) :: rat) \<le> of_int (3 * 2 ^ nat (52 - d))"
    by (simp only: of_int_le_iff)
  then have "round_double x \<le> of_int (3 * 2 ^ nat (52 - d)) * q" using q by (simp add: rd)
  also have "\<dots> = 3 * (2 ^ nat (52 - d) * q)" by simp
  finally show ?thesis by (simp add: inv)
qed

lemma round_double_error:
  assumes "0 < x" and "x < 4"
  shows "\<bar>round_double x - x\<bar> \<le> 1 / 2 ^ 52"
proof -
  have "x < 2 powi (1 + 1)" using assms by simp
  then have e: "expo x \<le> 1" using assms by (intro expo_le)
  define d where "d = max (expo x) (- 1022)"
  have d: "d \<le> 1" using e by (simp add: d_def)
  define q :: rat where "q = 2 powi (d - 52)"
  have q: "0 < q" by (simp add: q_def)
  have rd: "round_double x = of_int (round_even (x / q)) * q"
    using assms by (simp add: round_double_pos q_def d_def)
  have "q \<le> 2 powi (- 51)" unfolding q_def using d by (intro power_int_increasing) simp_all
  then have q51: "q \<le> 1 / 2 ^ 51" by (simp add: power_int_minus_divide)
  have "round_double x - x = (of_int (round_even (x / q)) - x / q) * q"
    using q by (simp add: rd field_simps)
  then have "\<bar>round_double x - x\<bar> = \<bar>of_int (round_even (x / q)) - x / q\<bar> * q"
    using q by (simp add: abs_mult)
  also have "\<dots> \<le> 1 / 2 * q" using round_even_error [of "x / q"] q by (intro mult_right_mono) simp_all
  also have "\<dots> \<le> 1 / 2 * (1 / 2 ^ 51)" using q51 by simp
  finally show ?thesis by simp
qed

lemma round_double_near:
  assumes "0 < x" and "x < 4"
  shows "x - 1 / 4503599627370496 \<le> round_double x" and "round_double x \<le> x + 1 / 4503599627370496"
proof -
  have "\<bar>round_double x - x\<bar> \<le> 1 / 4503599627370496"
    using round_double_error [OF assms] by simp
  then show "x - 1 / 4503599627370496 \<le> round_double x"
    and "round_double x \<le> x + 1 / 4503599627370496" by linarith+
qed


section \<open>The values the zoom controller computes\<close>

lemma zoomStep_value: "zoomStep = 3602879701896397 / 2 ^ 55"
  by code_simp

lemma zoomStep_bounds: "0 < zoomStep" "zoomStep < 1 / 2" "1 / 4503599627370496 < zoomStep"
  by (simp_all add: zoomStep_value)

lemma js_sub_values:
  "js_sub 1 zoomStep = 8106479329266893 / 9007199254740992"
  "js_sub (8106479329266893 / 9007199254740992) zoomStep = 3602879701896397 / 4503599627370496"
  "js_sub (3602879701896397 / 4503599627370496) zoomStep = 6305039478318695 / 9007199254740992"
  "js_sub (6305039478318695 / 9007199254740992) zoomStep = 1351079888211149 / 2251799813685248"
  "js_sub (1351079888211149 / 2251799813685248) zoomStep = 4503599627370497 / 9007199254740992"
  "js_sub (4503599627370497 / 9007199254740992) zoomStep = 1801439850948199 / 4503599627370496"
  by code_simp+

lemma js_add_value: "js_add 1 zoomStep = 2476979795053773 / 2251799813685248"
  by code_simp

lemma js_mul_values:
  "js_mul 1 100 = 100"
  "js_mul (2476979795053773 / 2251799813685248) 100 = 7740561859543041 / 70368744177664"
  by code_simp+

lemma zoom_values_at_bounds: "3 \<le> js_add 3 zoomStep" "js_sub (1 / 2) zoomStep \<le> 1 / 2"
  by code_simp+

lemma Math_round_values:
  "Math_round 100 = 100"
  "Math_round (7740561859543041 / 70368744177664) = 110"
  by code_simp+

lemma String_of_int_values:
  "String_of_int 100 = js ''100''"
  "String_of_int 110 = js ''110''"
  by (simp_all add: String_of_int_def digits.simps js_def)

lemma percent_100: "String_of_int (Math_round (js_mul 1 100)) @ js ''%'' = js ''100%''"
  unfolding js_mul_values Math_round_values String_of_int_values by (simp add: js_def)

lemma percent_110:
  "String_of_int (Math_round (js_mul (2476979795053773 / 2251799813685248) 100)) @ js ''%'' = js ''110%''"
  unfolding js_mul_values Math_round_values String_of_int_values by (simp add: js_def)

lemma zoom_in_value_bounds:
  assumes "1 / 2 \<le> z" and "z \<le> 3"
  shows "1 / 2 \<le> Math_min (js_add z zoomStep) maxZoom" and "Math_min (js_add z zoomStep) maxZoom \<le> 3"
proof -
  have "1 / 2 \<le> z + zoomStep" using assms(1) zoomStep_bounds(1) by linarith
  then have "1 / 2 \<le> round_double (z + zoomStep)" by (rule round_double_ge_half)
  then show "1 / 2 \<le> Math_min (js_add z zoomStep) maxZoom"
    by (simp add: Math_min_def js_add_def maxZoom_def)
  show "Math_min (js_add z zoomStep) maxZoom \<le> 3"
    by (simp add: Math_min_def maxZoom_def)
qed

lemma zoom_out_value_bounds:
  assumes "1 / 2 \<le> z" and "z \<le> 3"
  shows "1 / 2 \<le> Math_max (js_sub z zoomStep) minZoom" and "Math_max (js_sub z zoomStep) minZoom \<le> 3"
proof -
  have "z - zoomStep \<le> 3" using assms(2) zoomStep_bounds(1) by linarith
  then have "round_double (z - zoomStep) \<le> 3" by (rule round_double_le_3)
  then show "Math_max (js_sub z zoomStep) minZoom \<le> 3"
    by (simp add: Math_max_def js_sub_def minZoom_def)
  show "1 / 2 \<le> Math_max (js_sub z zoomStep) minZoom"
    by (simp add: Math_max_def minZoom_def)
qed

lemma zoom_in_value_increases:
  assumes "1 / 2 \<le> z" and "z < 3"
  shows "z < Math_min (js_add z zoomStep) maxZoom"
proof -
  have "0 < z + zoomStep" and "z + zoomStep < 4"
    using assms zoomStep_bounds(1,2) by linarith+
  then have "z + zoomStep - 1 / 4503599627370496 \<le> round_double (z + zoomStep)"
    by (rule round_double_near)
  then have "z < round_double (z + zoomStep)" using zoomStep_bounds(3) by linarith
  then show ?thesis using assms(2) by (simp add: Math_min_def js_add_def maxZoom_def)
qed

lemma zoom_out_value_decreases:
  assumes "1 / 2 < z" and "z \<le> 3"
  shows "Math_max (js_sub z zoomStep) minZoom < z"
proof -
  have "0 < z - zoomStep" and "z - zoomStep < 4"
    using assms zoomStep_bounds(1,2) by linarith+
  then have "round_double (z - zoomStep) \<le> z - zoomStep + 1 / 4503599627370496"
    by (rule round_double_near)
  then have "round_double (z - zoomStep) < z" using zoomStep_bounds(3) by linarith
  then show ?thesis using assms(1) by (simp add: Math_max_def js_sub_def minZoom_def)
qed


section \<open>Facts about the handlers\<close>

lemma updateZoom_currentZoom: "currentZoom (updateZoom s) = currentZoom s"
  by (simp add: updateZoom_def split: option.split)

lemma updateZoom_no_img: "graphContent_img s = None \<Longrightarrow> updateZoom s = s"
  by (simp add: updateZoom_def)

lemma updateZoom_img_None: "graphContent_img (updateZoom s) = None \<longleftrightarrow> graphContent_img s = None"
  by (simp add: updateZoom_def split: option.split)

lemma updateZoom_invariant:
  assumes "1 / 2 \<le> currentZoom s" and "currentZoom s \<le> 3"
  shows "zoom_invariant (updateZoom s)"
proof (cases "graphContent_img s")
  case None
  then show ?thesis using assms by (simp add: updateZoom_no_img zoom_invariant_def)
next
  case (Some img)
  then show ?thesis using assms
    by (auto simp: updateZoom_def zoom_invariant_def buttons_in_sync_def maxZoom_def minZoom_def)
qed

lemma zoom_invariantD:
  assumes "zoom_invariant s"
  shows "1 / 2 \<le> currentZoom s" and "currentZoom s \<le> 3"
  using assms unfolding zoom_invariant_def by blast+

lemma zoomIn_onclick_invariant:
  assumes "zoom_invariant s"
  shows "zoom_invariant (zoomIn_onclick s)"
proof (cases "currentZoom s < maxZoom")
  case True
  note b = zoom_invariantD [OF assms]
  have "zoom_invariant (updateZoom (s\<lparr>currentZoom := Math_min (js_add (currentZoom s) zoomStep) maxZoom\<rparr>))"
    by (rule updateZoom_invariant) (use zoom_in_value_bounds [OF b] in simp_all)
  then show ?thesis using True by (simp add: zoomIn_onclick_def)
next
  case False
  then show ?thesis using assms by (simp add: zoomIn_onclick_def)
qed

lemma zoomOut_onclick_invariant:
  assumes "zoom_invariant s"
  shows "zoom_invariant (zoomOut_onclick s)"
proof (cases "minZoom < currentZoom s")
  case True
  note b = zoom_invariantD [OF assms]
  have "zoom_invariant (updateZoom (s\<lparr>currentZoom := Math_max (js_sub (currentZoom s) zoomStep) minZoom\<rparr>))"
    by (rule updateZoom_invariant) (use zoom_out_value_bounds [OF b] in simp_all)
  then show ?thesis using True by (simp add: zoomOut_onclick_def)
next
  case False
  then show ?thesis using assms by (simp add: zoomOut_onclick_def)
qed

lemma graphImage_wheel_invariant:
  assumes "zoom_invariant s"
  shows "zoom_invariant (graphImage_wheel e s)"
proof (cases "ctrlKey e \<or> metaKey e")
  case False
  then show ?thesis using assms by (simp add: graphImage_wheel_def)
next
  case True
  note b = zoom_invariantD [OF assms]
  define s1 where "s1 =
    (if js_lt0 (js_or3 (deltaY e) (detail e) (wheelDelta e)) \<and> currentZoom s < maxZoom
     then s\<lparr>currentZoom := Math_min (js_add (currentZoom s) zoomStep) maxZoom\<rparr>
     else if js_gt0 (js_or3 (deltaY e) (detail e) (wheelDelta e)) \<and> minZoom < currentZoom s
     then s\<lparr>currentZoom := Math_max (js_sub (currentZoom s) zoomStep) minZoom\<rparr>
     else s)"
  have "1 / 2 \<le> currentZoom s1" and "currentZoom s1 \<le> 3"
    unfolding s1_def using b zoom_in_value_bounds [OF b] zoom_out_value_bounds [OF b] by simp_all
  then have "zoom_invariant (updateZoom s1)" by (rule updateZoom_invariant)
  moreover have "graphImage_wheel e s = updateZoom s1"
    using True by (simp add: graphImage_wheel_def s1_def Let_def)
  ultimately show ?thesis by simp
qed

lemma trigger_invariant: "zoom_invariant s \<Longrightarrow> zoom_invariant (trigger t s)"
  by (cases t)
     (simp_all add: zoomIn_click_def zoomOut_click_def document_keydown_def
        zoomIn_onclick_invariant zoomOut_onclick_invariant graphImage_wheel_invariant)

lemma zoom_run_invariant: "zoom_invariant s \<Longrightarrow> zoom_invariant (zoom_run ts s)"
  by (induction ts arbitrary: s) (simp_all add: trigger_invariant)

lemma trigger_img: "graphContent_img (trigger t s) = None \<longleftrightarrow> graphContent_img s = None"
  by (cases t)
     (simp_all add: zoomIn_click_def zoomOut_click_def zoomIn_onclick_def zoomOut_onclick_def
        document_keydown_def graphImage_wheel_def updateZoom_img_None Let_def)

lemma zoom_run_img: "graphContent_img (zoom_run ts s) = None \<longleftrightarrow> graphContent_img s = None"
  by (induction ts arbitrary: s) (simp_all add: trigger_img)

lemma trigger_no_img:
  assumes "graphContent_img s = None"
  shows "trigger t s = s\<lparr>currentZoom := currentZoom (trigger t s)\<rparr>"
  using assms
  by (cases t)
     (simp_all add: zoomIn_click_def zoomOut_click_def zoomIn_onclick_def zoomOut_onclick_def
        document_keydown_def graphImage_wheel_def updateZoom_no_img Let_def)

lemma zoomOut_click_no_img:
  assumes "graphContent_img s = None" and "\<not> zoomOut_disabled s" and "1 / 2 < currentZoom s"
  shows "zoomOut_click s = s\<lparr>currentZoom := max (js_sub (currentZoom s) zoomStep) (1 / 2)\<rparr>"
  using assms by (simp add: zoomOut_click_def zoomOut_onclick_def updateZoom_no_img minZoom_def Math_max_def)

lemma wheel_up_zoom:
  assumes "ctrlKey e \<or> metaKey e" and "deltaY e < 0" and "currentZoom s \<le> 3"
  shows "currentZoom (graphImage_wheel e s) = Math_min (js_add (currentZoom s) zoomStep) 3"
proof (cases "currentZoom s < 3")
  case True
  then show ?thesis using assms(1,2)
    by (simp add: graphImage_wheel_def js_or3_def js_lt0_def updateZoom_currentZoom maxZoom_def)
next
  case False
  then have z: "currentZoom s = 3" using assms(3) by simp
  have "graphImage_wheel e s = updateZoom s"
    using False assms(1,2)
    by (simp add: graphImage_wheel_def js_or3_def js_lt0_def js_gt0_def maxZoom_def)
  then have "currentZoom (graphImage_wheel e s) = currentZoom s"
    by (simp add: updateZoom_currentZoom)
  moreover have "Math_min (js_add 3 zoomStep) 3 = 3"
    using zoom_values_at_bounds(1) by (simp add: Math_min_def)
  ultimately show ?thesis unfolding z by simp
qed

lemma wheel_down_zoom:
  assumes "ctrlKey e \<or> metaKey e" and "0 < deltaY e" and "1 / 2 \<le> currentZoom s"
  shows "currentZoom (graphImage_wheel e s) = Math_max (js_sub (currentZoom s) zoomStep) (1 / 2)"
proof (cases "1 / 2 < currentZoom s")
  case True
  then show ?thesis using assms(1,2)
    by (simp add: graphImage_wheel_def js_or3_def js_lt0_def js_gt0_def updateZoom_currentZoom minZoom_def)
next
  case False
  then have z: "currentZoom s = 1 / 2" using assms(3) by simp
  have "graphImage_wheel e s = updateZoom s"
    using False assms(1,2)
    by (simp add: graphImage_wheel_def js_or3_def js_lt0_def js_gt0_def minZoom_def)
  then have "currentZoom (graphImage_wheel e s) = currentZoom s"
    by (simp add: updateZoom_currentZoom)
  moreover have "Math_max (js_sub (1 / 2) zoomStep) (1 / 2) = 1 / 2"
    using zoom_values_at_bounds(2) by (simp add: Math_max_def)
  ultimately show ?thesis unfolding z by simp
qed

lemma includes_js_not_Nil: "includes_js content (js ''<img'') \<Longrightarrow> content \<noteq> []"
  by (cases content) (simp_all add: js_def)

lemma not_includes_js_Nil: "\<not> includes_js [] (js ''<img'')"
  by (simp add: js_def)

lemma loaded_page_eq:
  "loaded_page =
     \<lparr>chatMessages = [], userInput_value = [], userInput_placeholder = default_placeholder,
      userInput_focused = True, sendBtn_disabled = False, sendBtn_innerHTML = generate_label,
      repairBtn_active = False, loadingOverlay_hidden = True, graphContent_innerHTML = [],
      graphContent_img = None, zoomLevel_textContent = js ''100%'', zoomIn_disabled = False,
      zoomOut_disabled = False, nodesMetric = js ''-'', edgesMetric = js ''-'',
      cyclomaticMetric = js ''-'', isRepairMode = False, currentZoom = 1\<rparr>"
  by (simp add: loaded_page_def DOMContentLoaded_def blank_document_def initializeUI_def updateMetrics_def)

lemma rendered_page_eq:
  \<open>rendered_page =
     loaded_page
       \<lparr>graphContent_innerHTML := js ''<img src="data:image/png;base64,AAAA" alt="Control Flow Graph">'',
        graphContent_img := Some \<lparr>transform_scale = Some 1\<rparr>\<rparr>\<close>
proof -
  have 1: \<open>includes_js (js ''<img src="data:image/png;base64,AAAA" alt="Control Flow Graph">'') (js ''<img'')\<close>
    by (simp add: js_def)
  have 2: \<open>start_tag_parser (js ''<img src="data:image/png;base64,AAAA" alt="Control Flow Graph">'')\<close>
    by (simp add: start_tag_parser_def js_def)
  show ?thesis
    unfolding rendered_page_def graphImage_set_innerHTML_def graphContent_set_innerHTML_def
    using 1 2 includes_js_not_Nil [OF 1]
    by (simp add: updateZoom_def percent_100 maxZoom_def minZoom_def) (simp add: loaded_page_eq)
qed

lemma zoomIn_click_loaded_page:
  "zoomIn_click loaded_page = loaded_page\<lparr>currentZoom := 2476979795053773 / 2251799813685248\<rparr>"
  by (simp add: loaded_page_eq zoomIn_click_def zoomIn_onclick_def updateZoom_def maxZoom_def Math_min_def js_add_value)

lemma trim_hi: "trim (js ''hi'') = js ''hi''"
  by (simp add: trim_def js_def is_whitespace_def)

lemma clearChat_success:
  assumes "status data = Some (js ''success'')"
  shows "clearChat parser (Resolved data) s =
     s\<lparr>chatMessages := [\<lparr>className = js ''message assistant'', body = InnerHTML (formatMessage WELCOME_MESSAGE)\<rparr>],
       userInput_value := [],
       userInput_focused := True,
       repairBtn_active := False,
       graphContent_innerHTML := [],
       graphContent_img := None,
       nodesMetric := js ''-'',
       edgesMetric := js ''-'',
       cyclomaticMetric := js ''-'',
       isRepairMode := False\<rparr>"
  using assms
  by (simp add: clearChat_def graphImage_set_innerHTML_def graphContent_set_innerHTML_def not_includes_js_Nil
        updateMetrics_def addMessage_def initializeUI_def Let_def)
     (simp add: js_def)

lemma clearChat_part000_success:
  assumes "status data = Some (js ''success'')"
  shows "clearChat_part000 parser (Resolved data) s =
     s\<lparr>chatMessages := [\<lparr>className = js ''message assistant'', body = InnerHTML (formatMessage WELCOME_MESSAGE)\<rparr>],
       userInput_value := [],
       userInput_focused := True,
       repairBtn_active := False,
       graphContent_innerHTML := [],
       graphContent_img := None,
       nodesMetric := js ''-'',
       edgesMetric := js ''-'',
       cyclomaticMetric := js ''-'',
       isRepairMode := False\<rparr>"
  using assms
  by (simp add: clearChat_part000_def graphContent_set_innerHTML_def
        updateMetrics_def addMessage_def initializeUI_part000_def Let_def)
     (simp add: js_def)

lemma split_not_Nil: "split sep s \<noteq> []"
  by (induction s) (auto split: list.splits)

lemma split_no_sep: "l \<in> set (split sep s) \<Longrightarrow> sep \<notin> set l"
  by (induction s arbitrary: l) (auto split: list.splits if_splits)

lemma join_Cons: "pieces \<noteq> [] \<Longrightarrow> join sep (piece # pieces) = piece @ sep # join sep pieces"
  by (cases pieces) simp_all

lemma join_Cons_Cons: "join sep ((c # piece) # pieces) = c # join sep (piece # pieces)"
  by (cases pieces) simp_all

lemma join_split: "join sep (split sep s) = s"
proof (induction s)
  case Nil
  show ?case by simp
next
  case (Cons c cs)
  show ?case
  proof (cases "c = sep")
    case True
    then show ?thesis using Cons by (simp add: join_Cons split_not_Nil)
  next
    case False
    obtain piece pieces where p: "split sep cs = piece # pieces"
      using split_not_Nil [of sep cs] by (cases "split sep cs") auto
    then show ?thesis using False Cons by (simp add: join_Cons_Cons)
  qed
qed

lemma formatMessage_line:
  \<open>(let line = trim line
     in if startsWith line [bullet] then js ''<div class="bullet-point">'' @ line @ js ''</div>''
        else if startsWith line (js ''-'') then js ''<div class="sub-bullet">'' @ line @ js ''</div>''
        else js ''<div>'' @ line @ js ''</div>'') = spec_line_element line\<close>
  by (cases "trim line") (simp_all add: spec_line_element_def spec_div_element_def startsWith_def js_def Let_def)


section \<open>The generate flow\<close>

text \<open>
  C1. When the \<open>/generate\<close> payload carries a non-empty \<open>error\<close> text \<open>e\<close> (and the input
  field was not blank, so that a request was made at all), \<open>generateGraph\<close> appends
  exactly one message to the transcript, tagged \<open>assistant\<close> and formatted from
  \<open>U+2022 Error: e\<close>; it restores the send button and hides the loading overlay; nothing
  else on the page changes. In particular no user message is appended, the image viewer,
  the zoom and the metrics keep their values and the input field keeps its text: the
  error check runs before the user's input is echoed.
\<close>

theorem generate_error_appends_one_assistant_message:
  assumes "trim (userInput_value s) \<noteq> []" and "error data = Some e" and "e \<noteq> []"
  shows "generateGraph parser (Resolved data) s =
     s\<lparr>chatMessages := chatMessages s @
          [\<lparr>className = js ''message assistant'',
            body = InnerHTML (formatMessage (bullet # js '' Error: '' @ e))\<rparr>],
       sendBtn_disabled := False,
       sendBtn_innerHTML := generate_label,
       loadingOverlay_hidden := True\<rparr>"
  using assms
  by (simp add: generateGraph_def generateGraph_try_def toggleLoading_def addMessage_def Let_def js_def)

text \<open>
  The theorem at the payload \<open>{error: "bad input"}\<close>, with \<open>hi\<close> typed into the input
  field of the freshly loaded page; the message body is the bullet element of the error
  line.
\<close>

theorem generate_error_appends_one_assistant_message_witness:
  \<open>trim (userInput_value (loaded_page\<lparr>userInput_value := js ''hi''\<rparr>)) \<noteq> [] \<and>
   error \<lparr>error = Some (js ''bad input''), chat_history = None, cfg_image = None, metrics = None\<rparr> =
     Some (js ''bad input'') \<and>
   js ''bad input'' \<noteq> [] \<and>
   generateGraph start_tag_parser
     (Resolved \<lparr>error = Some (js ''bad input''), chat_history = None, cfg_image = None, metrics = None\<rparr>)
     (loaded_page\<lparr>userInput_value := js ''hi''\<rparr>) =
   loaded_page
     \<lparr>userInput_value := js ''hi'',
      chatMessages := chatMessages (loaded_page\<lparr>userInput_value := js ''hi''\<rparr>) @
          [\<lparr>className = js ''message assistant'',
            body = InnerHTML (formatMessage (bullet # js '' Error: '' @ js ''bad input''))\<rparr>],
      sendBtn_disabled := False,
      sendBtn_innerHTML := generate_label,
      loadingOverlay_hidden := True\<rparr> \<and>
   formatMessage (bullet # js '' Error: '' @ js ''bad input'') =
     js ''<div class="bullet-point">'' @ bullet # js '' Error: bad input</div>''\<close>
proof -
  have \<open>formatMessage (bullet # js '' Error: '' @ js ''bad input'') =
      js ''<div class="bullet-point">'' @ bullet # js '' Error: bad input</div>''\<close>
    by (simp add: formatMessage_def js_def trim_def is_whitespace_def startsWith_def bullet_def newline_def)
  then show ?thesis
    using generate_error_appends_one_assistant_message
      [of "loaded_page\<lparr>userInput_value := js ''hi''\<rparr>"
          "\<lparr>error = Some (js ''bad input''), chat_history = None, cfg_image = None, metrics = None\<rparr>"
          "js ''bad input''" start_tag_parser]
    by (simp add: trim_hi) (simp add: js_def)
qed

text \<open>
  The transcript after that response holds the error message alone: the user's input
  \<open>hi\<close> has not been appended, neither before nor after the error check.
\<close>

theorem generate_error_echoes_no_user_message:
  "map className
     (chatMessages
        (generateGraph start_tag_parser
           (Resolved \<lparr>error = Some (js ''bad input''), chat_history = None, cfg_image = None, metrics = None\<rparr>)
           (loaded_page\<lparr>userInput_value := js ''hi''\<rparr>))) =
   [js ''message assistant'']"
  by (simp add: loaded_page_eq generateGraph_def generateGraph_try_def toggleLoading_def addMessage_def Let_def trim_hi)
     (simp add: js_def)


section \<open>Wheel zoom\<close>

text \<open>
  C2. With ctrl or cmd held and the zoom level within its bounds, a wheel event with a
  negative \<open>deltaY\<close> (the wheel turned up, away from the user) sets the zoom level to
  \<open>min(zoom + 0.1, 3)\<close>, which is larger than before unless the level was \<open>3\<close> already,
  and a wheel event with a positive \<open>deltaY\<close> (the wheel turned down) sets it to
  \<open>max(zoom - 0.1, 0.5)\<close>, which is smaller than before unless the level was \<open>0.5\<close>
  already. Wheel-up zooms in and wheel-down zooms out.
\<close>

theorem wheel_direction:
  assumes "ctrlKey e \<or> metaKey e" and "1 / 2 \<le> currentZoom s" and "currentZoom s \<le> 3"
  shows "(deltaY e < 0 \<longrightarrow>
            currentZoom (graphImage_wheel e s) = Math_min (js_add (currentZoom s) zoomStep) 3 \<and>
            (currentZoom s < 3 \<longrightarrow> currentZoom s < currentZoom (graphImage_wheel e s))) \<and>
         (0 < deltaY e \<longrightarrow>
            currentZoom (graphImage_wheel e s) = Math_max (js_sub (currentZoom s) zoomStep) (1 / 2) \<and>
            (1 / 2 < currentZoom s \<longrightarrow> currentZoom (graphImage_wheel e s) < currentZoom s))"
proof (intro conjI impI)
  assume d: "deltaY e < 0"
  show up: "currentZoom (graphImage_wheel e s) = Math_min (js_add (currentZoom s) zoomStep) 3"
    by (rule wheel_up_zoom [OF assms(1) d assms(3)])
  assume "currentZoom s < 3"
  then show "currentZoom s < currentZoom (graphImage_wheel e s)"
    using zoom_in_value_increases [OF assms(2)] by (simp add: up maxZoom_def)
next
  assume d: "0 < deltaY e"
  show down: "currentZoom (graphImage_wheel e s) = Math_max (js_sub (currentZoom s) zoomStep) (1 / 2)"
    by (rule wheel_down_zoom [OF assms(1) d assms(2)])
  assume "1 / 2 < currentZoom s"
  then show "currentZoom (graphImage_wheel e s) < currentZoom s"
    using zoom_out_value_decreases [OF _ assms(3)] by (simp add: down minZoom_def)
qed

theorem wheel_direction_witness:
  "(ctrlKey wheel_up_notch \<or> metaKey wheel_up_notch) \<and>
   (ctrlKey wheel_down_notch \<or> metaKey wheel_down_notch) \<and>
   1 / 2 \<le> currentZoom loaded_page \<and> currentZoom loaded_page \<le> 3 \<and>
   deltaY wheel_up_notch < 0 \<and> 0 < deltaY wheel_down_notch \<and>
   currentZoom loaded_page < 3 \<and> 1 / 2 < currentZoom loaded_page \<and>
   currentZoom (graphImage_wheel wheel_up_notch loaded_page) = 2476979795053773 / 2251799813685248 \<and>
   currentZoom loaded_page < currentZoom (graphImage_wheel wheel_up_notch loaded_page) \<and>
   currentZoom (graphImage_wheel wheel_down_notch loaded_page) = 8106479329266893 / 9007199254740992 \<and>
   currentZoom (graphImage_wheel wheel_down_notch loaded_page) < currentZoom loaded_page"
  using wheel_direction [of wheel_up_notch loaded_page] wheel_direction [of wheel_down_notch loaded_page]
  by (simp add: wheel_up_notch_def wheel_down_notch_def loaded_page_eq js_add_value js_sub_values
        Math_min_def Math_max_def)

text \<open>
  One notch of the wheel turned down (\<open>deltaY = 100\<close>) with ctrl held, on the freshly
  loaded page: the zoom level drops from \<open>1\<close> to \<open>0.9\<close>.
\<close>

theorem wheel_down_zooms_out:
  "0 < deltaY wheel_down_notch \<and> ctrlKey wheel_down_notch \<and>
   currentZoom loaded_page = 1 \<and>
   currentZoom (graphImage_wheel wheel_down_notch loaded_page) = 8106479329266893 / 9007199254740992 \<and>
   currentZoom (graphImage_wheel wheel_down_notch loaded_page) < currentZoom loaded_page"
  by (simp add: wheel_down_notch_def loaded_page_eq graphImage_wheel_def js_or3_def js_lt0_def js_gt0_def
        updateZoom_def minZoom_def maxZoom_def Math_max_def js_sub_values)


section \<open>What a clear resets\<close>

text \<open>
  C3. After a successful clear, \<open>isRepairMode\<close> is false and the repair button is not
  active, while \<open>currentZoom\<close>, the zoom display and the loading overlay are as they were
  before: the clear assigns the empty string to the viewer, which is not image markup, so
  the zoom level is not reset.
\<close>

theorem clear_keeps_zoom_and_loading:
  assumes "status data = Some (js ''success'')"
  shows "\<not> isRepairMode (clearChat parser (Resolved data) s) \<and>
         \<not> repairBtn_active (clearChat parser (Resolved data) s) \<and>
         currentZoom (clearChat parser (Resolved data) s) = currentZoom s \<and>
         zoomLevel_textContent (clearChat parser (Resolved data) s) = zoomLevel_textContent s \<and>
         loadingOverlay_hidden (clearChat parser (Resolved data) s) = loadingOverlay_hidden s"
  by (simp add: clearChat_success [OF assms])

theorem clear_keeps_zoom_and_loading_witness:
  "status \<lparr>status = Some (js ''success'')\<rparr> = Some (js ''success'') \<and>
   clear_succeeded = Resolved \<lparr>status = Some (js ''success'')\<rparr> \<and>
   isRepairMode (repairBtn_onclick loaded_page) \<and>
   \<not> isRepairMode (clearChat start_tag_parser clear_succeeded (repairBtn_onclick loaded_page)) \<and>
   \<not> repairBtn_active (clearChat start_tag_parser clear_succeeded (repairBtn_onclick loaded_page)) \<and>
   currentZoom (clearChat start_tag_parser clear_succeeded (repairBtn_onclick loaded_page)) = 1 \<and>
   loadingOverlay_hidden (clearChat start_tag_parser clear_succeeded (repairBtn_onclick loaded_page))"
  unfolding clear_succeeded_def
  using clear_keeps_zoom_and_loading
    [of "\<lparr>status = Some (js ''success'')\<rparr>" start_tag_parser "repairBtn_onclick loaded_page"]
  by (simp add: repairBtn_onclick_def loaded_page_eq Let_def)

text \<open>
  One click on the zoom-in button and then a successful clear: the zoom level is still
  \<open>1.1\<close>, not \<open>1\<close>.
\<close>

theorem clear_leaves_zoom_at_110_percent:
  "currentZoom loaded_page = 1 \<and>
   currentZoom (zoomIn_click loaded_page) = 2476979795053773 / 2251799813685248 \<and>
   currentZoom (clearChat start_tag_parser clear_succeeded (zoomIn_click loaded_page)) =
     2476979795053773 / 2251799813685248 \<and>
   currentZoom (clearChat start_tag_parser clear_succeeded (zoomIn_click loaded_page)) \<noteq> 1"
proof -
  have "status \<lparr>status = Some (js ''success'')\<rparr> = Some (js ''success'')" by simp
  then show ?thesis
    unfolding clear_succeeded_def
    by (simp add: clearChat_success zoomIn_click_loaded_page) (simp add: loaded_page_eq)
qed


section \<open>Zoom bounds and buttons\<close>

text \<open>
  C4. Start with a zoom level within \<open>[0.5, 3]\<close> (it is \<open>1\<close> after page load and after
  every rendered image) and, if an image is shown, with the two buttons in step with it
  (as they are right after the image is rendered). Then after every sequence of button
  clicks, keyboard shortcuts and wheel events the zoom level is still within \<open>[0.5, 3]\<close>,
  and whenever an image is shown the zoom-in button is disabled exactly when the level is
  \<open>3\<close> and the zoom-out button exactly when it is \<open>0.5\<close>. Without an image the buttons
  are not updated.
\<close>

theorem zoom_bounds_and_buttons:
  assumes "1 / 2 \<le> currentZoom s" and "currentZoom s \<le> 3"
    and "graphContent_img s \<noteq> None \<longrightarrow> buttons_in_sync s"
  shows "1 / 2 \<le> currentZoom (zoom_run ts s) \<and> currentZoom (zoom_run ts s) \<le> 3 \<and>
         (graphContent_img (zoom_run ts s) \<noteq> None \<longrightarrow>
            (zoomIn_disabled (zoom_run ts s) \<longleftrightarrow> currentZoom (zoom_run ts s) = 3) \<and>
            (zoomOut_disabled (zoom_run ts s) \<longleftrightarrow> currentZoom (zoom_run ts s) = 1 / 2))"
proof -
  have "zoom_invariant s" using assms by (simp add: zoom_invariant_def)
  then have "zoom_invariant (zoom_run ts s)" by (rule zoom_run_invariant)
  then show ?thesis by (simp add: zoom_invariant_def buttons_in_sync_def maxZoom_def minZoom_def)
qed

text \<open>
  The theorem on the page that shows a rendered image, for the sample run: a wheel-up
  event, a click on zoom-out and the shortcut cmd-plus.
\<close>

theorem zoom_bounds_and_buttons_witness:
  "1 / 2 \<le> currentZoom rendered_page \<and> currentZoom rendered_page \<le> 3 \<and>
   graphContent_img rendered_page \<noteq> None \<and> buttons_in_sync rendered_page \<and>
   graphContent_img (zoom_run sample_triggers rendered_page) \<noteq> None \<and>
   1 / 2 \<le> currentZoom (zoom_run sample_triggers rendered_page) \<and>
   currentZoom (zoom_run sample_triggers rendered_page) \<le> 3 \<and>
   (zoomIn_disabled (zoom_run sample_triggers rendered_page) \<longleftrightarrow>
      currentZoom (zoom_run sample_triggers rendered_page) = 3) \<and>
   (zoomOut_disabled (zoom_run sample_triggers rendered_page) \<longleftrightarrow>
      currentZoom (zoom_run sample_triggers rendered_page) = 1 / 2)"
proof -
  let ?S = "zoom_run sample_triggers rendered_page"
  have h1: "1 / 2 \<le> currentZoom rendered_page" and h2: "currentZoom rendered_page \<le> 3"
    and h3: "graphContent_img rendered_page \<noteq> None" and h4: "buttons_in_sync rendered_page"
    by (simp_all add: rendered_page_eq buttons_in_sync_def maxZoom_def minZoom_def) (simp_all add: loaded_page_eq)
  have i: "graphContent_img ?S \<noteq> None"
    using h3 by (simp only: zoom_run_img not_False_eq_True)
  have r: "1 / 2 \<le> currentZoom ?S \<and> currentZoom ?S \<le> 3 \<and>
         (graphContent_img ?S \<noteq> None \<longrightarrow>
            (zoomIn_disabled ?S \<longleftrightarrow> currentZoom ?S = 3) \<and>
            (zoomOut_disabled ?S \<longleftrightarrow> currentZoom ?S = 1 / 2))"
    by (rule zoom_bounds_and_buttons [OF h1 h2]) (simp add: h4)
  from r i have "zoomIn_disabled ?S \<longleftrightarrow> currentZoom ?S = 3"
    and "zoomOut_disabled ?S \<longleftrightarrow> currentZoom ?S = 1 / 2" by blast+
  with r i h1 h2 h3 h4 show ?thesis by (intro conjI) blast+
qed

text \<open>
  Six clicks on zoom-out on the freshly loaded page, which shows no image: the zoom level
  has reached the bound \<open>0.5\<close> and the zoom-out button is still enabled.
\<close>

theorem zoom_out_button_stays_enabled_at_bound:
  "currentZoom (zoom_run [ZoomOutButton, ZoomOutButton, ZoomOutButton, ZoomOutButton, ZoomOutButton, ZoomOutButton]
                  loaded_page) = 1 / 2 \<and>
   \<not> zoomOut_disabled (zoom_run [ZoomOutButton, ZoomOutButton, ZoomOutButton, ZoomOutButton, ZoomOutButton, ZoomOutButton]
                  loaded_page)"
  by (simp add: loaded_page_eq zoomOut_click_no_img js_sub_values)


section \<open>The viewer's content setter\<close>

text \<open>
  C5. Assigning markup that contains \<open><img\<close> to the viewer's content stores the markup
  and resets \<open>currentZoom\<close> to \<open>1\<close>; when the markup yields an image element, that
  element is scaled by \<open>1\<close>, the display reads \<open>100%\<close> and both buttons are enabled.
  Assigning markup without \<open><img\<close>, such as the empty string, stores the markup and
  leaves the zoom level, the display and the buttons as they were.
\<close>

theorem image_markup_resets_zoom:
  "(includes_js content (js ''<img'') \<longrightarrow>
      currentZoom (graphImage_set_innerHTML parser content s) = 1 \<and>
      graphContent_innerHTML (graphImage_set_innerHTML parser content s) = content \<and>
      (parser content \<longrightarrow>
         graphContent_img (graphImage_set_innerHTML parser content s) = Some \<lparr>transform_scale = Some 1\<rparr> \<and>
         zoomLevel_textContent (graphImage_set_innerHTML parser content s) = js ''100%'' \<and>
         \<not> zoomIn_disabled (graphImage_set_innerHTML parser content s) \<and>
         \<not> zoomOut_disabled (graphImage_set_innerHTML parser content s))) \<and>
   (\<not> includes_js content (js ''<img'') \<longrightarrow>
      graphContent_innerHTML (graphImage_set_innerHTML parser content s) = content \<and>
      currentZoom (graphImage_set_innerHTML parser content s) = currentZoom s \<and>
      zoomLevel_textContent (graphImage_set_innerHTML parser content s) = zoomLevel_textContent s \<and>
      zoomIn_disabled (graphImage_set_innerHTML parser content s) = zoomIn_disabled s \<and>
      zoomOut_disabled (graphImage_set_innerHTML parser content s) = zoomOut_disabled s)"
  by (auto simp: graphImage_set_innerHTML_def graphContent_set_innerHTML_def updateZoom_def
        includes_js_not_Nil percent_100 maxZoom_def minZoom_def)

text \<open>
  The theorem for the image markup of the generate flow, assigned after one zoom-in, and
  for the empty string, assigned after one zoom-in on a rendered image.
\<close>

theorem image_markup_resets_zoom_witness:
  \<open>includes_js (js ''<img src="data:image/png;base64,AAAA" alt="Control Flow Graph">'') (js ''<img'') \<and>
   start_tag_parser (js ''<img src="data:image/png;base64,AAAA" alt="Control Flow Graph">'') \<and>
   currentZoom
     (graphImage_set_innerHTML start_tag_parser
        (js ''<img src="data:image/png;base64,AAAA" alt="Control Flow Graph">'') (zoomIn_click loaded_page)) = 1 \<and>
   zoomLevel_textContent
     (graphImage_set_innerHTML start_tag_parser
        (js ''<img src="data:image/png;base64,AAAA" alt="Control Flow Graph">'') (zoomIn_click loaded_page)) = js ''100%'' \<and>
   \<not> includes_js [] (js ''<img'') \<and>
   graphContent_innerHTML (graphImage_set_innerHTML start_tag_parser [] (zoomIn_click rendered_page)) = [] \<and>
   currentZoom (graphImage_set_innerHTML start_tag_parser [] (zoomIn_click rendered_page)) =
     currentZoom (zoomIn_click rendered_page)\<close>
proof -
  have 1: \<open>includes_js (js ''<img src="data:image/png;base64,AAAA" alt="Control Flow Graph">'') (js ''<img'')\<close>
    by (simp add: js_def)
  have 2: \<open>start_tag_parser (js ''<img src="data:image/png;base64,AAAA" alt="Control Flow Graph">'')\<close>
    by (simp add: start_tag_parser_def js_def)
  show ?thesis
    using 1 2 not_includes_js_Nil
      image_markup_resets_zoom
        [of \<open>js ''<img src="data:image/png;base64,AAAA" alt="Control Flow Graph">''\<close>
            start_tag_parser "zoomIn_click loaded_page"]
      image_markup_resets_zoom [of "[]" start_tag_parser "zoomIn_click rendered_page"]
    by simp
qed


section \<open>The message formatter\<close>

text \<open>
  C6. The formatter splits its input at line breaks (the pieces contain no line break and,
  joined by line breaks, give the input back) and maps each line on its own, in order,
  concatenating the results. A line is first stripped of surrounding white space; the
  stripped line gives a bullet element if it starts with \<open>U+2022\<close>, a sub-bullet element
  if it starts with \<open>-\<close>, and a plain element otherwise, an empty line giving an empty
  plain element.
\<close>

theorem formatMessage_by_lines:
  "formatMessage content = concat (map spec_line_element (split newline content)) \<and>
   join newline (split newline content) = content \<and>
   (\<forall>line \<in> set (split newline content). newline \<notin> set line)"
  by (simp add: formatMessage_def formatMessage_line join_split split_no_sep)

theorem formatMessage_by_lines_witness:
  \<open>split newline (bullet # js '' a'' @ newline # js ''  - b'' @ [newline]) = [bullet # js '' a'', js ''  - b'', []] \<and>
   newline \<notin> set (bullet # js '' a'') \<and> newline \<notin> set (js ''  - b'') \<and>
   join newline [bullet # js '' a'', js ''  - b'', []] = bullet # js '' a'' @ newline # js ''  - b'' @ [newline] \<and>
   formatMessage (bullet # js '' a'' @ newline # js ''  - b'' @ [newline]) =
     js ''<div class="bullet-point">'' @ bullet # js '' a</div><div class="sub-bullet">- b</div><div></div>''\<close>
  using formatMessage_by_lines [of \<open>bullet # js '' a'' @ newline # js ''  - b'' @ [newline]\<close>]
  by (simp add: js_def newline_def bullet_def spec_line_element_def spec_div_element_def trim_def is_whitespace_def)

text \<open>
  A line that starts with two spaces and a dash starts with neither \<open>U+2022\<close> nor \<open>-\<close>,
  and yet it gives a sub-bullet element, holding the stripped line.
\<close>

theorem indented_dash_line_is_sub_bullet:
  \<open>\<not> startsWith (js ''  - x'') [bullet] \<and> \<not> startsWith (js ''  - x'') (js ''-'') \<and>
   formatMessage (js ''  - x'') = js ''<div class="sub-bullet">- x</div>''\<close>
  by (simp add: formatMessage_def js_def trim_def is_whitespace_def startsWith_def bullet_def newline_def)


section \<open>User text and assistant markup\<close>

text \<open>
  C7. For every content, \<open>addMessage\<close> with type \<open>user\<close> appends one element whose
  content is inserted as text, and with type \<open>assistant\<close> one element whose content is
  the markup that \<open>formatMessage\<close> produces; the content of the appended element is text
  exactly when the type is not \<open>assistant\<close>.
\<close>

theorem addMessage_user_text_assistant_markup:
  "addMessage content (js ''user'') s =
     s\<lparr>chatMessages := chatMessages s @ [\<lparr>className = js ''message user'', body = TextContent content\<rparr>]\<rparr> \<and>
   addMessage content (js ''assistant'') s =
     s\<lparr>chatMessages := chatMessages s @
        [\<lparr>className = js ''message assistant'', body = InnerHTML (formatMessage content)\<rparr>]\<rparr> \<and>
   (body (last (chatMessages (addMessage content type s))) = TextContent content \<longleftrightarrow> type \<noteq> js ''assistant'')"
  by (simp add: addMessage_def js_def)


section \<open>The clear flow\<close>

text \<open>
  C8. When \<open>/clear_session\<close> answers \<open>{status: "success"}\<close>, then in either copy of the
  script the transcript afterwards holds exactly the welcome message, tagged
  \<open>assistant\<close>; the viewer's content is empty and holds no image; the input field is
  empty and has the focus; the three metrics read \<open>-\<close>; and \<open>isRepairMode\<close> is false.
\<close>

theorem clear_resets_transcript_viewer_input_metrics:
  assumes "status data = Some (js ''success'')"
    and "s' = clearChat parser (Resolved data) s \<or> s' = clearChat_part000 parser (Resolved data) s"
  shows "chatMessages s' =
           [\<lparr>className = js ''message assistant'', body = InnerHTML (formatMessage WELCOME_MESSAGE)\<rparr>] \<and>
         graphContent_innerHTML s' = [] \<and> graphContent_img s' = None \<and>
         userInput_value s' = [] \<and> userInput_focused s' \<and>
         nodesMetric s' = js ''-'' \<and> edgesMetric s' = js ''-'' \<and> cyclomaticMetric s' = js ''-'' \<and>
         \<not> isRepairMode s'"
  using assms(2) by (auto simp: clearChat_success [OF assms(1)] clearChat_part000_success [OF assms(1)])

theorem clear_resets_transcript_viewer_input_metrics_witness:
  "status \<lparr>status = Some (js ''success'')\<rparr> = Some (js ''success'') \<and>
   clear_succeeded = Resolved \<lparr>status = Some (js ''success'')\<rparr> \<and>
   chatMessages (clearChat start_tag_parser clear_succeeded rendered_page) =
     [\<lparr>className = js ''message assistant'', body = InnerHTML (formatMessage WELCOME_MESSAGE)\<rparr>] \<and>
   graphContent_innerHTML (clearChat start_tag_parser clear_succeeded rendered_page) = [] \<and>
   graphContent_img (clearChat start_tag_parser clear_succeeded rendered_page) = None \<and>
   userInput_value (clearChat start_tag_parser clear_succeeded rendered_page) = [] \<and>
   userInput_focused (clearChat start_tag_parser clear_succeeded rendered_page) \<and>
   nodesMetric (clearChat start_tag_parser clear_succeeded rendered_page) = js ''-'' \<and>
   \<not> isRepairMode (clearChat start_tag_parser clear_succeeded rendered_page) \<and>
   chatMessages (clearChat_part000 start_tag_parser clear_succeeded rendered_page) =
     [\<lparr>className = js ''message assistant'', body = InnerHTML (formatMessage WELCOME_MESSAGE)\<rparr>] \<and>
   cyclomaticMetric (clearChat_part000 start_tag_parser clear_succeeded rendered_page) = js ''-''"
  unfolding clear_succeeded_def
  using clear_resets_transcript_viewer_input_metrics
      [of "\<lparr>status = Some (js ''success'')\<rparr>"
          "clearChat start_tag_parser (Resolved \<lparr>status = Some (js ''success'')\<rparr>) rendered_page"
          start_tag_parser rendered_page]
    clear_resets_transcript_viewer_input_metrics
      [of "\<lparr>status = Some (js ''success'')\<rparr>"
          "clearChat_part000 start_tag_parser (Resolved \<lparr>status = Some (js ''success'')\<rparr>) rendered_page"
          start_tag_parser rendered_page]
  by simp


section \<open>The repair toggle\<close>

text \<open>
  C9. Two consecutive clicks on the repair button restore \<open>isRepairMode\<close> and the
  button's active state, and leave the placeholder at the fixed text that belongs to the
  restored flag. From any page reached by a click, two further clicks lead back to exactly
  that page. The placeholder is set from the flag, not swapped: when it did not belong to
  the flag before, two clicks do not bring it back.
\<close>

theorem repair_toggle_twice:
  "isRepairMode (repairBtn_onclick (repairBtn_onclick s)) = isRepairMode s \<and>
   repairBtn_active (repairBtn_onclick (repairBtn_onclick s)) = repairBtn_active s \<and>
   userInput_placeholder (repairBtn_onclick (repairBtn_onclick s)) =
     (if isRepairMode s then repair_placeholder else default_placeholder) \<and>
   repairBtn_onclick (repairBtn_onclick (repairBtn_onclick s)) = repairBtn_onclick s"
  by (simp add: repairBtn_onclick_def Let_def)

text \<open>
  Turn repair mode on and clear the session: the flag is off again and the placeholder
  still asks for an improvement. Two clicks later the placeholder is the default text.
\<close>

theorem stale_placeholder_after_clear:
  "userInput_placeholder (clearChat start_tag_parser clear_succeeded (repairBtn_onclick loaded_page)) =
     repair_placeholder \<and>
   userInput_placeholder
     (repairBtn_onclick (repairBtn_onclick
        (clearChat start_tag_parser clear_succeeded (repairBtn_onclick loaded_page)))) = default_placeholder \<and>
   userInput_placeholder
     (repairBtn_onclick (repairBtn_onclick
        (clearChat start_tag_parser clear_succeeded (repairBtn_onclick loaded_page)))) \<noteq>
   userInput_placeholder (clearChat start_tag_parser clear_succeeded (repairBtn_onclick loaded_page))"
proof -
  have "repair_placeholder \<noteq> default_placeholder"
    by (simp add: repair_placeholder_def default_placeholder_def js_def)
  then show ?thesis
    unfolding clear_succeeded_def
    by (simp add: loaded_page_eq repairBtn_onclick_def clearChat_def initializeUI_def updateMetrics_def
          addMessage_def graphImage_set_innerHTML_def graphContent_set_innerHTML_def Let_def
          not_includes_js_Nil)
       (simp add: js_def)
qed


section \<open>Zooming without an image\<close>

text \<open>
  C10. While the viewer holds no image element, a zoom trigger (button, keyboard shortcut
  or wheel) changes nothing on the page except possibly \<open>currentZoom\<close>: the zoom display
  and the disabled state of both buttons stay as they were. On the freshly loaded page a
  click on zoom-in raises \<open>currentZoom\<close> from \<open>1\<close> to \<open>1.1\<close> while the display keeps
  reading \<open>100%\<close>, where the rounded percentage of the zoom level is \<open>110%\<close>.
\<close>

theorem zoom_without_image_leaves_display:
  "(graphContent_img s = None \<longrightarrow>
      trigger t s = s\<lparr>currentZoom := currentZoom (trigger t s)\<rparr> \<and>
      zoomLevel_textContent (trigger t s) = zoomLevel_textContent s \<and>
      zoomIn_disabled (trigger t s) = zoomIn_disabled s \<and>
      zoomOut_disabled (trigger t s) = zoomOut_disabled s) \<and>
   graphContent_img loaded_page = None \<and>
   currentZoom loaded_page = 1 \<and>
   currentZoom (trigger ZoomInButton loaded_page) = 2476979795053773 / 2251799813685248 \<and>
   zoomLevel_textContent (trigger ZoomInButton loaded_page) = js ''100%'' \<and>
   String_of_int (Math_round (js_mul (currentZoom (trigger ZoomInButton loaded_page)) 100)) @ js ''%'' = js ''110%''"
proof -
  have gen: "graphContent_img s = None \<longrightarrow>
      trigger t s = s\<lparr>currentZoom := currentZoom (trigger t s)\<rparr> \<and>
      zoomLevel_textContent (trigger t s) = zoomLevel_textContent s \<and>
      zoomIn_disabled (trigger t s) = zoomIn_disabled s \<and>
      zoomOut_disabled (trigger t s) = zoomOut_disabled s"
  proof
    assume "graphContent_img s = None"
    then have frame: "trigger t s = s\<lparr>currentZoom := currentZoom (trigger t s)\<rparr>"
      by (rule trigger_no_img)
    then obtain z where z: "trigger t s = s\<lparr>currentZoom := z\<rparr>" ..
    have "zoomLevel_textContent (trigger t s) = zoomLevel_textContent s"
      and "zoomIn_disabled (trigger t s) = zoomIn_disabled s"
      and "zoomOut_disabled (trigger t s) = zoomOut_disabled s"
      unfolding z by simp_all
    with frame show "trigger t s = s\<lparr>currentZoom := currentZoom (trigger t s)\<rparr> \<and>
      zoomLevel_textContent (trigger t s) = zoomLevel_textContent s \<and>
      zoomIn_disabled (trigger t s) = zoomIn_disabled s \<and>
      zoomOut_disabled (trigger t s) = zoomOut_disabled s"
      by (intro conjI)
  qed
  have c1: "graphContent_img loaded_page = None" and c2: "currentZoom loaded_page = 1"
    by (simp_all add: loaded_page_eq)
  have c3: "currentZoom (trigger ZoomInButton loaded_page) = 2476979795053773 / 2251799813685248"
    by (simp add: zoomIn_click_loaded_page)
  have c4: "zoomLevel_textContent (trigger ZoomInButton loaded_page) = js ''100%''"
    by (simp add: zoomIn_click_loaded_page) (simp add: loaded_page_eq)
  have c5: "String_of_int (Math_round (js_mul (currentZoom (trigger ZoomInButton loaded_page)) 100)) @ js ''%'' =
      js ''110%''"
    unfolding c3 by (rule percent_110)
  show ?thesis by (intro conjI gen c1 c2 c3 c4 c5)
qed

theorem zoom_without_image_leaves_display_witness:
  "graphContent_img loaded_page = None \<and>
   trigger (Wheel wheel_up_notch) loaded_page =
     loaded_page\<lparr>currentZoom := currentZoom (trigger (Wheel wheel_up_notch) loaded_page)\<rparr> \<and>
   zoomLevel_textContent (trigger (Wheel wheel_up_notch) loaded_page) = js ''100%'' \<and>
   \<not> zoomIn_disabled (trigger (Wheel wheel_up_notch) loaded_page) \<and>
   \<not> zoomOut_disabled (trigger (Wheel wheel_up_notch) loaded_page)"
proof -
  have "graphContent_img loaded_page = None" "zoomLevel_textContent loaded_page = js ''100%''"
    "\<not> zoomIn_disabled loaded_page" "\<not> zoomOut_disabled loaded_page"
    by (simp_all add: loaded_page_eq)
  then show ?thesis
    using zoom_without_image_leaves_display [of loaded_page "Wheel wheel_up_notch"] by metis
qed

end
